theory Spec2Isabelle
  imports Complex_Main
begin

section \<open>Data model of HomeView.tsx\<close>

text \<open>
  The component keeps its orders in a React state cell holding an array of
  \<^verbatim>\<open>ResponseOrderDTO\<close> objects. The TypeScript interfaces are erased at
  run time: the objects are whatever \<^verbatim>\<open>JSON.parse\<close> or axios delivered, and
  no handler checks their shape. The only property the handlers read is
  \<^verbatim>\<open>orderID\<close>, so this property is modelled as it exists at run time: \<open>Some k\<close>
  for a string \<open>k\<close>, \<open>None\<close> for an absent property (JavaScript's
  \<^verbatim>\<open>undefined\<close>; \<^verbatim>\<open>undefined === undefined\<close> is true, as \<open>None = None\<close> is).
  Properties declared optional in the interfaces are options as well. The
  numeric properties are only copied by the handlers modelled here, never
  computed with; they are carried as integers and rationals.
\<close>

record ResponseOrderItemDTO =
  orderItemID :: string
  itemID :: string
  itemName :: string
  soldPrice :: rat
  discountedPercentage :: "rat option"
  taxedPercentage :: rat
  quantity :: int

record ResponseOrderDTO =
  orderID :: "string option"
  branchID :: string
  orderNumber :: int
  orderType :: string
  orderStatus :: string
  orderNote :: "string option"
  orderCancelMessage :: "string option"
  paymentType :: string
  totalPrice :: rat
  isPaid :: bool
  createdAt :: string
  items :: "ResponseOrderItemDTO list"

section \<open>The store updaters\<close>

text \<open>
  \<^verbatim>\<open>handleNewOrder\<close> and \<^verbatim>\<open>handleStatusChange\<close> pass an updater to
  \<^verbatim>\<open>setOrders\<close>; the functions below are these updaters, from the previous
  array to the next one. \<^verbatim>\<open>prev.some(p)\<close> is \<open>list_ex p prev\<close>,
  \<^verbatim>\<open>prev.map(f)\<close> is \<open>map f prev\<close> and \<^verbatim>\<open>[...prev, order]\<close> is
  \<open>prev @ [order]\<close>.
\<close>

definition handleNewOrder :: "ResponseOrderDTO \<Rightarrow> ResponseOrderDTO list \<Rightarrow> ResponseOrderDTO list" where
  "handleNewOrder order prev =
     (if list_ex (\<lambda>x. orderID x = orderID order) prev
      then map (\<lambda>x. if orderID x = orderID order then order else x) prev
      else prev @ [order])"

definition handleStatusChange :: "ResponseOrderDTO \<Rightarrow> ResponseOrderDTO list \<Rightarrow> ResponseOrderDTO list" where
  "handleStatusChange updatedOrder prev =
     map (\<lambda>order. if orderID order = orderID updatedOrder then updatedOrder else order) prev"

text \<open>A sequence of store updates, applied in order.\<close>

datatype store_update = NewOrder ResponseOrderDTO | StatusChanged ResponseOrderDTO

fun apply_update :: "store_update \<Rightarrow> ResponseOrderDTO list \<Rightarrow> ResponseOrderDTO list" where
  "apply_update (NewOrder order) prev = handleNewOrder order prev"
| "apply_update (StatusChanged order) prev = handleStatusChange order prev"

fun apply_updates :: "store_update list \<Rightarrow> ResponseOrderDTO list \<Rightarrow> ResponseOrderDTO list" where
  "apply_updates [] prev = prev"
| "apply_updates (u # us) prev = apply_updates us (apply_update u prev)"

text \<open>Two sample orders used in the concrete instances below.\<close>

definition order1 :: ResponseOrderDTO where
  "order1 = \<lparr> orderID = Some ''O1'', branchID = ''A'', orderNumber = 1,
     orderType = ''Dine-in'', orderStatus = ''Pending'', orderNote = None,
     orderCancelMessage = None, paymentType = ''Cash'', totalPrice = 20,
     isPaid = False, createdAt = ''2025-01-01T10:00:00Z'',
     items = [\<lparr> orderItemID = ''L1'', itemID = ''I1'', itemName = ''Tea'',
       soldPrice = 10, discountedPercentage = Some 10, taxedPercentage = 5,
       quantity = 2 \<rparr>] \<rparr>"

definition order2 :: ResponseOrderDTO where
  "order2 = \<lparr> orderID = Some ''O2'', branchID = ''B'', orderNumber = 2,
     orderType = ''Takeaway'', orderStatus = ''Pending'', orderNote = Some ''no sugar'',
     orderCancelMessage = None, paymentType = ''Card'', totalPrice = 7,
     isPaid = True, createdAt = ''2025-01-01T10:05:00Z'', items = [] \<rparr>"

section \<open>The component and its environment\<close>

text \<open>
  The state of \<^verbatim>\<open>HomeView\<close>: the React state cells \<^verbatim>\<open>branchId\<close>,
  \<^verbatim>\<open>isConnected\<close>, \<^verbatim>\<open>orders\<close>, \<^verbatim>\<open>connectionMessages\<close> and the ref
  \<^verbatim>\<open>socketRef\<close>, together with the part of the browser the handlers act on:
  the WebSocket objects created so far (a socket is named by its index in
  \<open>sockets\<close>, and \<open>socketRef\<close> holds such an index or \<open>None\<close> for
  \<^verbatim>\<open>null\<close>), the GET requests issued through axios with a flag telling
  whether each has settled, the \<^verbatim>\<open>alert\<close> boxes shown and the console
  output. The order form (\<^verbatim>\<open>newOrder\<close>, \<^verbatim>\<open>newItem\<close>, \<^verbatim>\<open>createOrder\<close>,
  \<^verbatim>\<open>updateOrderStatus\<close>) never writes \<^verbatim>\<open>orders\<close> or the socket and is left
  out. A state update takes effect at once; the handlers use functional
  updaters, so none of them reads a stale \<^verbatim>\<open>orders\<close> array.
\<close>

datatype ready_state = CONNECTING | OPEN | CLOSING | CLOSED

record WebSocket =
  url :: string
  readyState :: ready_state

datatype console_entry = ConsoleLog string | ConsoleError string

record HomeView =
  branchId :: string
  isConnected :: bool
  orders :: "ResponseOrderDTO list"
  connectionMessages :: "string list"
  socketRef :: "nat option"
  sockets :: "WebSocket list"
  requests :: "(string \<times> bool) list"
  alerts :: "string list"
  console :: "console_entry list"

definition initial :: HomeView where
  "initial = \<lparr> branchId = [], isConnected = False, orders = [], connectionMessages = [],
     socketRef = None, sockets = [], requests = [], alerts = [], console = [] \<rparr>"

definition API_URL :: string where
  "API_URL = ''https://aroided-pos-api-dev.azurewebsites.net''"

text \<open>\<^verbatim>\<open>s.replace(pat, rep)\<close> with a string pattern: the first occurrence only.\<close>

fun replace :: "string \<Rightarrow> string \<Rightarrow> string \<Rightarrow> string" where
  "replace pat rep [] = (if pat = [] then rep else [])"
| "replace pat rep (c # cs) =
     (if take (length pat) (c # cs) = pat then rep @ drop (length pat) (c # cs)
      else c # replace pat rep cs)"

definition wsUrl :: "string \<Rightarrow> string" where
  "wsUrl b = replace ''http://'' ''ws://'' (replace ''https://'' ''wss://'' API_URL)
     @ ''/ws/orders?branchId='' @ b"

text \<open>A value inside a template literal: an absent property prints as \<^verbatim>\<open>undefined\<close>.\<close>

fun template :: "string option \<Rightarrow> string" where
  "template None = ''undefined''"
| "template (Some v) = v"

fun string_of_nat :: "nat \<Rightarrow> string" where
  "string_of_nat n =
     (if n < 10 then [''0123456789'' ! n]
      else string_of_nat (n div 10) @ [''0123456789'' ! (n mod 10)])"

text \<open>
  \<^verbatim>\<open>addConnectionMessage\<close>; \<open>now\<close> is what
  \<^verbatim>\<open>new Date().toLocaleTimeString()\<close> returns when the handler runs.
\<close>

definition addConnectionMessage :: "string \<Rightarrow> string \<Rightarrow> HomeView \<Rightarrow> HomeView" where
  "addConnectionMessage now message s =
     s\<lparr>connectionMessages := connectionMessages s @ [''['' @ now @ ''] '' @ message]\<rparr>"

text \<open>
  \<^verbatim>\<open>close()\<close> of the WebSocket interface: a socket that is connecting or
  open starts closing, a socket that is closing or closed is left as it is.
\<close>

definition ws_close :: "nat \<Rightarrow> WebSocket list \<Rightarrow> WebSocket list" where
  "ws_close i ws =
     (if i < length ws \<and> (readyState (ws ! i) = CONNECTING \<or> readyState (ws ! i) = OPEN)
      then ws[i := (ws ! i)\<lparr>readyState := CLOSING\<rparr>] else ws)"

text \<open>
  \<^verbatim>\<open>connectWebSocket\<close>. \<open>ctor_ok\<close> tells whether \<^verbatim>\<open>new WebSocket(wsUrl)\<close>
  returns a socket (in state CONNECTING) or throws, which the outer
  \<^verbatim>\<open>catch\<close> handles. The four handlers assigned to the new socket are the
  functions \<open>onopen\<close>, \<open>onmessage\<close>, \<open>onclose\<close> and \<open>onerror\<close> below.
\<close>

definition connectWebSocket :: "string \<Rightarrow> bool \<Rightarrow> HomeView \<Rightarrow> HomeView" where
  "connectWebSocket now ctor_ok s =
     (if branchId s = [] then s\<lparr>alerts := alerts s @ [''Please enter a Branch ID'']\<rparr>
      else
        let s1 = (case socketRef s of
                    Some i \<Rightarrow> s\<lparr>sockets := ws_close i (sockets s)\<rparr>
                  | None \<Rightarrow> s);
            s2 = addConnectionMessage now (''Connecting to '' @ wsUrl (branchId s) @ ''...'') s1
        in if ctor_ok
           then s2\<lparr>sockets := sockets s2 @ [\<lparr>url = wsUrl (branchId s), readyState = CONNECTING\<rparr>],
                   socketRef := Some (length (sockets s2))\<rparr>
           else s2\<lparr>console := console s2 @ [ConsoleError ''Failed to connect to WebSocket:''],
                   isConnected := False\<rparr>)"

definition onopen :: "string \<Rightarrow> HomeView \<Rightarrow> HomeView" where
  "onopen now s = addConnectionMessage now ''Connected to WebSocket server'' (s\<lparr>isConnected := True\<rparr>)"

definition onclose :: "string \<Rightarrow> HomeView \<Rightarrow> HomeView" where
  "onclose now s =
     addConnectionMessage now ''Disconnected from WebSocket server'' (s\<lparr>isConnected := False\<rparr>)"

definition onerror :: "string \<Rightarrow> string \<Rightarrow> HomeView \<Rightarrow> HomeView" where
  "onerror now error_type s =
     addConnectionMessage now (''WebSocket error: '' @ error_type) (s\<lparr>isConnected := False\<rparr>)"

text \<open>
  An inbound frame, by what \<^verbatim>\<open>JSON.parse(event.data)\<close> does with it:
  \<^item> \<open>Unparseable\<close>: the text is not JSON and \<^verbatim>\<open>JSON.parse\<close> throws;
  \<^item> \<open>ParsedNull\<close>: the text is \<^verbatim>\<open>null\<close>, and reading \<^verbatim>\<open>data.type\<close> throws;
  \<^item> \<open>Parsed ty payload cid\<close>: any other value, with \<open>ty\<close> its \<^verbatim>\<open>type\<close>
    property (\<open>None\<close> when absent), \<open>payload\<close> its \<^verbatim>\<open>data\<close> property
    (\<open>None\<close> when it is absent or \<^verbatim>\<open>null\<close>, else the object, read as an
    order whose \<^verbatim>\<open>orderID\<close> may be absent) and \<open>cid\<close> its
    \<^verbatim>\<open>connectionId\<close> property.
  The handler reads \<^verbatim>\<open>data.data\<close> in the first two cases of the switch only.
\<close>

datatype frame =
  Unparseable | ParsedNull | Parsed "string option" "ResponseOrderDTO option" "string option"

definition console_log :: "string \<Rightarrow> HomeView \<Rightarrow> HomeView" where
  "console_log text s = s\<lparr>console := console s @ [ConsoleLog text]\<rparr>"

definition console_error :: "string \<Rightarrow> HomeView \<Rightarrow> HomeView" where
  "console_error text s = s\<lparr>console := console s @ [ConsoleError text]\<rparr>"

text \<open>
  The handler passes \<^verbatim>\<open>data.data\<close> to \<^verbatim>\<open>handleNewOrder\<close> or
  \<^verbatim>\<open>handleStatusChange\<close> as it is. When it is \<^verbatim>\<open>undefined\<close> or
  \<^verbatim>\<open>null\<close>, the handler itself returns, and the render that follows throws
  a TypeError outside the handler's \<^verbatim>\<open>try\<close> block:
  \<^item> for \<^verbatim>\<open>new_order\<close> on a non-empty array, the callback of \<^verbatim>\<open>prev.some\<close>
    reads \<^verbatim>\<open>order.orderID\<close>; on the empty array the updater returns
    \<^verbatim>\<open>[undefined]\<close> and the list's \<^verbatim>\<open>key={order.orderID}\<close> throws;
  \<^item> for \<^verbatim>\<open>status_changed\<close> on a non-empty array, the callback of
    \<^verbatim>\<open>prev.map\<close> reads \<^verbatim>\<open>updatedOrder.orderID\<close>; on the empty array the
    callback never runs and nothing throws.
  There is no error boundary, so React then unmounts the component, and the
  cleanup of the second effect closes the socket in \<^verbatim>\<open>socketRef.current\<close>.
\<close>

definition render_throws :: "frame \<Rightarrow> HomeView \<Rightarrow> bool" where
  "render_throws f s =
     (case f of
        Parsed ty None cid \<Rightarrow>
          ty = Some ''new_order'' \<or> (ty = Some ''status_changed'' \<and> orders s \<noteq> [])
      | _ \<Rightarrow> False)"

definition unmount :: "HomeView \<Rightarrow> HomeView" where
  "unmount s =
     (case socketRef s of
        Some i \<Rightarrow> s\<lparr>sockets := ws_close i (sockets s)\<rparr>
      | None \<Rightarrow> s)"

text \<open>
  \<^verbatim>\<open>onmessage\<close>, with the render that follows it. When that render throws,
  the state updates of the handler are never committed; what is left is the
  console output of the handler and the unmounted component, with the state
  it last rendered.
\<close>

definition onmessage :: "string \<Rightarrow> frame \<Rightarrow> HomeView \<Rightarrow> HomeView" where
  "onmessage now f s =
     (case f of
        Unparseable \<Rightarrow> console_error ''Error parsing WebSocket message:'' s
      | ParsedNull \<Rightarrow> console_error ''Error parsing WebSocket message:'' s
      | Parsed ty payload cid \<Rightarrow>
          let s1 = addConnectionMessage now (''Received: '' @ template ty) s;
              s2 = console_log ''Received message:'' s1
          in if ty = Some ''new_order'' then
               (case payload of
                  Some order \<Rightarrow> s2\<lparr>orders := handleNewOrder order (orders s2)\<rparr>
                | None \<Rightarrow> unmount (console_log ''Received message:'' s))
             else if ty = Some ''status_changed'' then
               (let s3 = console_log ''Status changed:'' s2
                in case payload of
                     Some updatedOrder \<Rightarrow> s3\<lparr>orders := handleStatusChange updatedOrder (orders s3)\<rparr>
                   | None \<Rightarrow>
                       if orders s3 = [] then s3
                       else unmount (console_log ''Status changed:''
                              (console_log ''Received message:'' s)))
             else if ty = Some ''connection'' then
               addConnectionMessage now (''Connection established. ID: '' @ template cid) s2
             else if ty = Some ''pong'' then console_log ''Ping-pong: Connection alive'' s2
             else console_log ''Unknown message type:'' s2)"

text \<open>
  \<^verbatim>\<open>fetchOrders\<close> is asynchronous. Up to its \<^verbatim>\<open>await\<close> it issues the GET
  request for the branch id of the render it was created in
  (\<open>fetchOrders_request\<close>); it resumes when the request settles
  (\<open>fetchOrders_resume\<close>). The request either rejects (transport error, or
  an HTTP status axios rejects) or resolves with a body \<^verbatim>\<open>response.data\<close>:
  \<open>None\<close> for a null body, whose \<^verbatim>\<open>response\<close> property cannot be read, else
  the envelope with its \<^verbatim>\<open>response\<close> code, \<^verbatim>\<open>data\<close> and \<^verbatim>\<open>message\<close>.
\<close>

record envelope =
  response :: int
  data :: "ResponseOrderDTO list option"
  message :: "string option"

datatype axios_result = Rejected | Resolved "envelope option"

definition fetch_url :: "string \<Rightarrow> string" where
  "fetch_url b = API_URL @ ''/api/v1/Order/GetOrdersByBranchId/'' @ b"

definition fetchOrders_request :: "HomeView \<Rightarrow> HomeView" where
  "fetchOrders_request s = s\<lparr>requests := requests s @ [(fetch_url (branchId s), False)]\<rparr>"

definition fetchOrders_resume :: "string \<Rightarrow> axios_result \<Rightarrow> HomeView \<Rightarrow> HomeView" where
  "fetchOrders_resume now res s =
     (case res of
        Rejected \<Rightarrow> console_error ''Error fetching orders:'' s
      | Resolved None \<Rightarrow> console_error ''Error fetching orders:'' s
      | Resolved (Some body) \<Rightarrow>
          if response body = 200 then
            (case data body of
               None \<Rightarrow> console_error ''Error fetching orders:'' (s\<lparr>orders := []\<rparr>)
             | Some ds \<Rightarrow>
                 addConnectionMessage now (''Fetched '' @ string_of_nat (length ds) @ '' orders'')
                   (s\<lparr>orders := ds\<rparr>))
          else console_error ''Error fetching orders:'' s)"

text \<open>
  The input's \<^verbatim>\<open>onChange\<close> calls \<^verbatim>\<open>setBranchId\<close>; when the value changed, the
  effect with dependency \<^verbatim>\<open>[branchId]\<close> runs after the render and calls
  \<^verbatim>\<open>fetchOrders\<close> if the new value is not empty.
\<close>

definition setBranchId :: "string \<Rightarrow> HomeView \<Rightarrow> HomeView" where
  "setBranchId b s =
     (if b = branchId s then s
      else let s1 = s\<lparr>branchId := b\<rparr>
           in if branchId s1 \<noteq> [] then fetchOrders_request s1 else s1)"

text \<open>The Disconnect button's \<^verbatim>\<open>onClick\<close>.\<close>

definition disconnect :: "string \<Rightarrow> HomeView \<Rightarrow> HomeView" where
  "disconnect now s =
     (case socketRef s of
        Some i \<Rightarrow> addConnectionMessage now ''Manually disconnected''
                    (s\<lparr>sockets := ws_close i (sockets s)\<rparr>)
      | None \<Rightarrow> s)"

text \<open>
  The events the component reacts to. The Connect button is disabled while
  \<^verbatim>\<open>isConnected\<close> holds, the Disconnect button while it does not. The browser
  fires \<^verbatim>\<open>open\<close> at a connecting socket, delivers a message at an open socket
  only, fires \<^verbatim>\<open>close\<close> when a socket that was not closed becomes closed, and
  fires \<^verbatim>\<open>error\<close> followed by \<^verbatim>\<open>close\<close> when a connection fails. A request
  settles once, and only after it was issued. A state of type \<open>HomeView\<close> is
  the state of the mounted component: a sequence of events is followed up to
  the event that unmounts the component, and the events after it find no
  component to act on.
\<close>

datatype event =
    ChangeBranchId string
  | ClickConnect bool
  | ClickDisconnect
  | ClickRefresh
  | WsOpen nat
  | WsMessage nat frame
  | WsClose nat
  | WsError nat string
  | AxiosSettled nat axios_result

definition set_readyState :: "nat \<Rightarrow> ready_state \<Rightarrow> HomeView \<Rightarrow> HomeView" where
  "set_readyState i r s = s\<lparr>sockets := (sockets s)[i := (sockets s ! i)\<lparr>readyState := r\<rparr>]\<rparr>"

definition has_state :: "nat \<Rightarrow> ready_state \<Rightarrow> HomeView \<Rightarrow> bool" where
  "has_state i r s = (i < length (sockets s) \<and> readyState (sockets s ! i) = r)"

fun step :: "string \<Rightarrow> event \<Rightarrow> HomeView \<Rightarrow> HomeView" where
  "step now (ChangeBranchId b) s = setBranchId b s"
| "step now (ClickConnect ctor_ok) s = (if isConnected s then s else connectWebSocket now ctor_ok s)"
| "step now ClickDisconnect s = (if isConnected s then disconnect now s else s)"
| "step now ClickRefresh s = fetchOrders_request s"
| "step now (WsOpen i) s =
     (if has_state i CONNECTING s then onopen now (set_readyState i OPEN s) else s)"
| "step now (WsMessage i f) s = (if has_state i OPEN s then onmessage now f s else s)"
| "step now (WsClose i) s =
     (if i < length (sockets s) \<and> \<not> has_state i CLOSED s
      then onclose now (set_readyState i CLOSED s) else s)"
| "step now (WsError i error_type) s =
     (if i < length (sockets s) \<and> \<not> has_state i CLOSED s
      then onclose now (onerror now error_type (set_readyState i CLOSED s)) else s)"
| "step now (AxiosSettled k res) s =
     (if k < length (requests s) \<and> \<not> snd (requests s ! k)
      then fetchOrders_resume now res (s\<lparr>requests := (requests s)[k := (fst (requests s ! k), True)]\<rparr>)
      else s)"

fun unmounts :: "event \<Rightarrow> HomeView \<Rightarrow> bool" where
  "unmounts (WsMessage i f) s = (has_state i OPEN s \<and> render_throws f s)"
| "unmounts e s = False"

fun run :: "(string \<times> event) list \<Rightarrow> HomeView \<Rightarrow> HomeView" where
  "run [] s = s"
| "run ((now, e) # es) s = (if unmounts e s then step now e s else run es (step now e s))"

text \<open>A socket is live while it is connecting or open.\<close>

fun live :: "ready_state \<Rightarrow> bool" where
  "live CONNECTING = True"
| "live OPEN = True"
| "live CLOSING = False"
| "live CLOSED = False"

definition live_sockets :: "HomeView \<Rightarrow> nat list" where
  "live_sockets s = filter (\<lambda>i. live (readyState (sockets s ! i))) [0..<length (sockets s)]"

text \<open>
  Every live socket is the one \<^verbatim>\<open>socketRef.current\<close> points to.
\<close>

definition socket_inv :: "HomeView \<Rightarrow> bool" where
  "socket_inv s =
     list_all (\<lambda>i. live (readyState (sockets s ! i)) \<longrightarrow> socketRef s = Some i)
       [0..<length (sockets s)]"

text \<open>Calls of \<^verbatim>\<open>connectWebSocket\<close> one after the other.\<close>

fun connects :: "(string \<times> bool) list \<Rightarrow> HomeView \<Rightarrow> HomeView" where
  "connects [] s = s"
| "connects ((now, ctor_ok) # cs) s = connects cs (connectWebSocket now ctor_ok s)"

text \<open>
  Frames handed to \<^verbatim>\<open>onmessage\<close> in their order of arrival, up to the frame
  that unmounts the component.
\<close>

fun dispatch :: "(string \<times> frame) list \<Rightarrow> HomeView \<Rightarrow> HomeView" where
  "dispatch [] s = s"
| "dispatch ((now, f) # fs) s =
     (if render_throws f s then onmessage now f s else dispatch fs (onmessage now f s))"

text \<open>The frames on which the \<^verbatim>\<open>try\<close> block of \<^verbatim>\<open>onmessage\<close> throws.\<close>

fun throws :: "frame \<Rightarrow> bool" where
  "throws Unparseable = True"
| "throws ParsedNull = True"
| "throws (Parsed ty payload cid) = False"

text \<open>
  The outcomes of the request on which \<^verbatim>\<open>fetchOrders\<close> reaches one of its
  two \<^verbatim>\<open>console.error\<close> calls without having called \<^verbatim>\<open>setOrders\<close>: the
  request rejects, the body cannot be read, or the body's \<^verbatim>\<open>response\<close> code
  is not 200.
\<close>

fun fetch_failed :: "axios_result \<Rightarrow> bool" where
  "fetch_failed Rejected = True"
| "fetch_failed (Resolved None) = True"
| "fetch_failed (Resolved (Some body)) = (response body \<noteq> 200)"

section \<open>Properties of the store updaters\<close>

lemma map_ids_replace:
  "map orderID (map (\<lambda>x. if orderID x = orderID order then order else x) prev) = map orderID prev"
  by (induction prev) auto

lemma replace_twice:
  "map (\<lambda>x. if orderID x = orderID order then order else x)
     (map (\<lambda>x. if orderID x = orderID order then order else x) prev)
   = map (\<lambda>x. if orderID x = orderID order then order else x) prev"
  by (induction prev) auto

lemma replace_unseen:
  "\<not> list_ex (\<lambda>x. orderID x = orderID order) prev \<Longrightarrow>
   map (\<lambda>x. if orderID x = orderID order then order else x) prev = prev"
  by (induction prev) auto

lemma seen_after_handleNewOrder:
  "list_ex (\<lambda>x. orderID x = orderID order) (handleNewOrder order prev)"
  by (induction prev) (auto simp: handleNewOrder_def list_ex_iff)

lemma seen_iff:
  "list_ex (\<lambda>x. orderID x = k) prev \<longleftrightarrow> k \<in> set (map orderID prev)"
  by (induction prev) auto

lemma handleNewOrder_ids:
  "map orderID (handleNewOrder order prev) =
     (if orderID order \<in> set (map orderID prev) then map orderID prev
      else map orderID prev @ [orderID order])"
  unfolding handleNewOrder_def seen_iff
  by (simp add: map_ids_replace del: map_map)

lemma handleStatusChange_ids:
  "map orderID (handleStatusChange order prev) = map orderID prev"
  by (simp add: handleStatusChange_def map_ids_replace)

lemma apply_update_distinct:
  "distinct (map orderID prev) \<Longrightarrow> distinct (map orderID (apply_update u prev))"
  by (cases u) (auto simp: handleNewOrder_ids handleStatusChange_ids simp del: map_map)

text \<open>
  C1. Applying the \<^verbatim>\<open>new_order\<close> updater twice with the same order gives the
  same array as applying it once, for every order and every previous array
  (also one that already holds the order's id, or holds it several times).
\<close>

theorem handleNewOrder_idempotent:
  "handleNewOrder order (handleNewOrder order prev) = handleNewOrder order prev"
proof (cases "list_ex (\<lambda>x. orderID x = orderID order) prev")
  case True
  then have first: "handleNewOrder order prev =
      map (\<lambda>x. if orderID x = orderID order then order else x) prev"
    by (simp add: handleNewOrder_def)
  have "list_ex (\<lambda>x. orderID x = orderID order) (handleNewOrder order prev)"
    by (rule seen_after_handleNewOrder)
  then show ?thesis
    unfolding first by (simp add: handleNewOrder_def replace_twice)
next
  case False
  then have first: "handleNewOrder order prev = prev @ [order]"
    by (simp add: handleNewOrder_def)
  have "list_ex (\<lambda>x. orderID x = orderID order) (prev @ [order])"
    by (simp add: list_ex_iff)
  then have "handleNewOrder order (prev @ [order]) =
      map (\<lambda>x. if orderID x = orderID order then order else x) prev @ [order]"
    by (simp add: handleNewOrder_def)
  with False show ?thesis
    by (simp add: first replace_unseen)
qed

theorem handleNewOrder_idempotent_witness:
  "handleNewOrder order1 (handleNewOrder order1 [order2]) = [order2, order1]
   \<and> handleNewOrder order1 [order2] = [order2, order1]"
  using handleNewOrder_idempotent [of order1 "[order2]"]
  by (simp add: handleNewOrder_def order1_def order2_def)

text \<open>
  C2. Key uniqueness is preserved: if the ids of the stored orders are
  pairwise distinct, they still are after any sequence of \<^verbatim>\<open>new_order\<close>
  and \<^verbatim>\<open>status_changed\<close> updates.
\<close>

theorem orderID_unique_invariant:
  "distinct (map orderID prev) \<Longrightarrow> distinct (map orderID (apply_updates us prev))"
proof (induction us arbitrary: prev)
  case Nil
  then show ?case by simp
next
  case (Cons u us)
  from Cons.prems have "distinct (map orderID (apply_update u prev))"
    by (rule apply_update_distinct)
  then show ?case
    by (simp add: Cons.IH)
qed

theorem orderID_unique_invariant_witness:
  "distinct (map orderID [order2])
   \<and> distinct (map orderID
        (apply_updates [NewOrder order1, StatusChanged order2, NewOrder order1] [order2]))"
proof -
  have h: "distinct (map orderID [order2])" by simp
  show ?thesis
    using h orderID_unique_invariant [OF h, of "[NewOrder order1, StatusChanged order2, NewOrder order1]"]
    by simp
qed

section \<open>Dispatch of order frames\<close>

lemma orders_simps:
  "orders (addConnectionMessage now m s) = orders s"
  "orders (console_log t s) = orders s"
  "orders (console_error t s) = orders s"
  by (simp_all add: addConnectionMessage_def console_log_def console_error_def)

lemma orders_onmessage_new_order:
  "orders (onmessage now (Parsed (Some ''new_order'') (Some payload) cid) s)
     = handleNewOrder payload (orders s)"
  by (simp add: onmessage_def Let_def orders_simps)

lemma orders_onmessage_status_changed:
  "orders (onmessage now (Parsed (Some ''status_changed'') (Some payload) cid) s)
     = handleStatusChange payload (orders s)"
  by (simp add: onmessage_def Let_def orders_simps)

lemma replace_others:
  "filter (\<lambda>x. orderID x \<noteq> k) (map (\<lambda>x. if orderID x = k then order else x) prev)
     = filter (\<lambda>x. orderID x \<noteq> k) prev" if "orderID order = k"
  using that by (induction prev) auto

lemma replace_same:
  "x \<in> set (map (\<lambda>x. if orderID x = orderID order then order else x) prev) \<Longrightarrow>
   orderID x = orderID order \<Longrightarrow> x = order"
  by (induction prev) (auto split: if_splits)

lemma replace_mem:
  "list_ex (\<lambda>x. orderID x = orderID order) prev \<Longrightarrow>
   order \<in> set (map (\<lambda>x. if orderID x = orderID order then order else x) prev)"
  by (induction prev) auto

lemma handleStatusChange_mem:
  "list_ex (\<lambda>x. orderID x = orderID order) prev \<Longrightarrow> order \<in> set (handleStatusChange order prev)"
  unfolding handleStatusChange_def by (rule replace_mem)

lemma handleNewOrder_mem: "order \<in> set (handleNewOrder order prev)"
  by (simp add: handleNewOrder_def replace_mem del: set_map)

lemma handleStatusChange_same:
  "x \<in> set (handleStatusChange order prev) \<Longrightarrow> orderID x = orderID order \<Longrightarrow> x = order"
  unfolding handleStatusChange_def by (rule replace_same)

lemma handleNewOrder_same:
  "x \<in> set (handleNewOrder order prev) \<Longrightarrow> orderID x = orderID order \<Longrightarrow> x = order"
  by (auto simp: handleNewOrder_def list_ex_iff simp del: set_map dest: replace_same split: if_splits)

lemma handleStatusChange_others:
  "filter (\<lambda>x. orderID x \<noteq> orderID order) (handleStatusChange order prev)
     = filter (\<lambda>x. orderID x \<noteq> orderID order) prev"
  by (simp add: handleStatusChange_def replace_others)

lemma handleNewOrder_others:
  "filter (\<lambda>x. orderID x \<noteq> orderID order) (handleNewOrder order prev)
     = filter (\<lambda>x. orderID x \<noteq> orderID order) prev"
  by (simp add: handleNewOrder_def replace_others)

lemma handleStatusChange_unseen:
  "\<not> list_ex (\<lambda>x. orderID x = orderID order) prev \<Longrightarrow> handleStatusChange order prev = prev"
  by (simp add: handleStatusChange_def replace_unseen)

lemma handleNewOrder_ids_seen:
  "list_ex (\<lambda>x. orderID x = orderID order) prev \<Longrightarrow>
   map orderID (handleNewOrder order prev) = map orderID prev"
  by (simp add: handleNewOrder_def map_ids_replace del: map_map)

text \<open>
  C3 (as the code has it). A \<^verbatim>\<open>new_order\<close> frame is an insert-or-replace by
  \<^verbatim>\<open>orderID\<close>: an unseen id is appended, a known id has its entry replaced by
  the payload, in place. A \<^verbatim>\<open>status_changed\<close> frame replaces the entry of a
  known id in the same way, and leaves the store as it is when the id is
  unseen: it never inserts. In both cases every entry with another id is
  untouched, and no entry with the payload's id other than the payload
  remains.
\<close>

theorem order_frames_applied:
  "(let seen = list_ex (\<lambda>x. orderID x = orderID payload) (orders s);
        new = orders (onmessage now (Parsed (Some ''new_order'') (Some payload) cid) s);
        changed = orders (onmessage now (Parsed (Some ''status_changed'') (Some payload) cid) s)
    in (\<not> seen \<longrightarrow> new = orders s @ [payload] \<and> changed = orders s)
     \<and> (seen \<longrightarrow> payload \<in> set new \<and> payload \<in> set changed
           \<and> map orderID new = map orderID (orders s)
           \<and> map orderID changed = map orderID (orders s))
     \<and> (\<forall>x \<in> set new. orderID x = orderID payload \<longrightarrow> x = payload)
     \<and> (\<forall>x \<in> set changed. orderID x = orderID payload \<longrightarrow> x = payload)
     \<and> filter (\<lambda>x. orderID x \<noteq> orderID payload) new
         = filter (\<lambda>x. orderID x \<noteq> orderID payload) (orders s)
     \<and> filter (\<lambda>x. orderID x \<noteq> orderID payload) changed
         = filter (\<lambda>x. orderID x \<noteq> orderID payload) (orders s))"
proof -
  have unseen: "handleNewOrder payload (orders s) = orders s @ [payload]"
    if "\<not> list_ex (\<lambda>x. orderID x = orderID payload) (orders s)"
    using that by (simp add: handleNewOrder_def)
  show ?thesis
    unfolding Let_def orders_onmessage_new_order orders_onmessage_status_changed
    using unseen handleStatusChange_unseen [of payload "orders s"]
      handleStatusChange_mem [of payload "orders s"] handleNewOrder_mem [of payload "orders s"]
      handleNewOrder_ids_seen [of payload "orders s"] handleStatusChange_ids [of payload "orders s"]
      handleNewOrder_same [of _ payload "orders s"] handleStatusChange_same [of _ payload "orders s"]
      handleNewOrder_others [of payload "orders s"] handleStatusChange_others [of payload "orders s"]
    by blast
qed

theorem order_frames_applied_witness:
  "orders (onmessage ''t'' (Parsed (Some ''new_order'') (Some (order1\<lparr>orderStatus := ''Preparing''\<rparr>)) None)
      (initial\<lparr>orders := [order2, order1]\<rparr>)) = [order2, order1\<lparr>orderStatus := ''Preparing''\<rparr>]
   \<and> orders (onmessage ''t'' (Parsed (Some ''status_changed'') (Some (order1\<lparr>orderStatus := ''Preparing''\<rparr>)) None)
      (initial\<lparr>orders := [order2, order1]\<rparr>)) = [order2, order1\<lparr>orderStatus := ''Preparing''\<rparr>]
   \<and> orders (onmessage ''t'' (Parsed (Some ''new_order'') (Some order1) None) (initial\<lparr>orders := [order2]\<rparr>))
       = [order2, order1]
   \<and> orders (onmessage ''t'' (Parsed (Some ''status_changed'') (Some order1) None) (initial\<lparr>orders := [order2]\<rparr>))
       = [order2]"
  using order_frames_applied [of "order1\<lparr>orderStatus := ''Preparing''\<rparr>" "initial\<lparr>orders := [order2, order1]\<rparr>" "''t''" None]
    order_frames_applied [of order1 "initial\<lparr>orders := [order2]\<rparr>" "''t''" None]
  by (simp add: orders_onmessage_new_order orders_onmessage_status_changed handleNewOrder_def
      handleStatusChange_def order1_def order2_def)

text \<open>
  C3 as stated fails: on the empty store, a \<^verbatim>\<open>status_changed\<close> frame for an
  unseen order does not insert it.
\<close>

theorem status_changed_unseen_counterexample:
  "\<not> list_ex (\<lambda>x. orderID x = orderID order1) (orders initial)
   \<and> order1 \<notin> set (orders (onmessage ''t'' (Parsed (Some ''status_changed'') (Some order1) None) initial))"
  by (simp add: orders_onmessage_status_changed handleStatusChange_def initial_def)

section \<open>Frames on which the handler throws\<close>

lemma onmessage_throws:
  "throws f \<Longrightarrow> onmessage now f s = console_error ''Error parsing WebSocket message:'' s"
  by (cases f) (simp_all add: onmessage_def)

lemma throws_renders: "throws f \<Longrightarrow> \<not> render_throws f s"
  by (cases f) (simp_all add: render_throws_def)

lemma render_throws_Some: "\<not> render_throws (Parsed ty (Some payload) cid) s"
  by (simp add: render_throws_def)

lemma render_throws_cong: "orders s = orders t \<Longrightarrow> render_throws f s = render_throws f t"
  by (simp add: render_throws_def split: frame.splits option.splits)

lemma orders_unmount: "orders (unmount s) = orders s"
  by (simp add: unmount_def split: option.splits)

lemma orders_onmessage_cong:
  "orders s = orders t \<Longrightarrow> orders (onmessage now f s) = orders (onmessage now' f t)"
  by (cases f)
    (simp_all add: onmessage_def Let_def orders_simps orders_unmount split: option.splits)

lemma orders_dispatch_cong:
  "orders s = orders t \<Longrightarrow> orders (dispatch fs s) = orders (dispatch fs t)"
proof (induction fs arbitrary: s t)
  case Nil
  then show ?case by simp
next
  case (Cons nf fs)
  obtain now f where nf: "nf = (now, f)" by (cases nf)
  from Cons.prems have step: "orders (onmessage now f s) = orders (onmessage now f t)"
    by (rule orders_onmessage_cong)
  from Cons.prems have same: "render_throws f s = render_throws f t"
    by (rule render_throws_cong)
  from step have "orders (dispatch fs (onmessage now f s)) = orders (dispatch fs (onmessage now f t))"
    by (rule Cons.IH)
  with step same show ?case
    unfolding nf by simp
qed

lemma orders_dispatch_skip:
  assumes "throws f"
  shows "orders (dispatch (fs @ (now, f) # gs) s) = orders (dispatch (fs @ gs) s)"
proof (induction fs arbitrary: s)
  case Nil
  have "orders (onmessage now f s) = orders s"
    using assms by (simp add: onmessage_throws console_error_def)
  then have "orders (dispatch gs (onmessage now f s)) = orders (dispatch gs s)"
    by (rule orders_dispatch_cong)
  with assms show ?case
    by (simp add: throws_renders)
next
  case (Cons ng fs)
  obtain n g where ng: "ng = (n, g)" by (cases ng)
  show ?case
    unfolding ng by (simp add: Cons.IH)
qed

text \<open>
  C5 (as the code has it). A frame on which the handler's \<^verbatim>\<open>try\<close> block
  throws (the text is not JSON, or it is \<^verbatim>\<open>null\<close>) is dropped: the handler
  writes one \<^verbatim>\<open>console.error\<close> line and changes nothing else. The orders
  after any later frames are the same as if the frame had never arrived; in
  particular such a frame between two \<^verbatim>\<open>new_order\<close> frames blocks neither
  of them. The handler validates no payload, so nothing is claimed about a
  frame that parses.
\<close>

theorem throwing_frame_dropped:
  "throws f \<Longrightarrow>
     onmessage now f s = s\<lparr>console := console s @ [ConsoleError ''Error parsing WebSocket message:'']\<rparr>
   \<and> orders (onmessage now f s) = orders s
   \<and> orders (dispatch (fs @ (now, f) # gs) s) = orders (dispatch (fs @ gs) s)
   \<and> orders (dispatch [(n1, Parsed (Some ''new_order'') (Some o1) c1), (now, f),
                        (n2, Parsed (Some ''new_order'') (Some o2) c2)] s)
       = handleNewOrder o2 (handleNewOrder o1 (orders s))"
proof -
  assume f: "throws f"
  have drop: "onmessage now f t = t\<lparr>console := console t @ [ConsoleError ''Error parsing WebSocket message:'']\<rparr>" for t
    using f by (simp add: onmessage_throws console_error_def)
  have same: "orders (onmessage now f t) = orders t" for t
    by (simp add: drop)
  have seq: "orders (dispatch (fs @ (now, f) # gs) s) = orders (dispatch (fs @ gs) s)"
    using f by (rule orders_dispatch_skip)
  have between: "orders (dispatch [(n1, Parsed (Some ''new_order'') (Some o1) c1), (now, f),
                        (n2, Parsed (Some ''new_order'') (Some o2) c2)] s)
       = handleNewOrder o2 (handleNewOrder o1 (orders s))"
    using f by (simp add: orders_onmessage_new_order same render_throws_Some throws_renders)
  from drop same seq between show ?thesis by blast
qed

theorem throwing_frame_dropped_witness:
  "throws Unparseable
   \<and> orders (dispatch [(''t1'', Parsed (Some ''new_order'') (Some order1) None), (''t2'', Unparseable),
                        (''t3'', Parsed (Some ''new_order'') (Some order2) None)] initial) = [order1, order2]
   \<and> console (onmessage ''t2'' Unparseable initial) = [ConsoleError ''Error parsing WebSocket message:'']"
proof -
  have h: "throws Unparseable" by simp
  show ?thesis
    using h throwing_frame_dropped [OF h, of "''t2''" initial "[]" "[]" "''t1''" order1 None "''t3''" order2 None]
    by (simp add: handleNewOrder_def initial_def order1_def order2_def render_throws_def)
qed

text \<open>
  C5 as stated fails: a \<^verbatim>\<open>new_order\<close> frame whose payload has no
  \<^verbatim>\<open>orderID\<close> is not dropped; the payload is appended to the store.
\<close>

theorem missing_orderID_counterexample:
  "orderID (order1\<lparr>orderID := None\<rparr>) = None
   \<and> orders (onmessage ''t'' (Parsed (Some ''new_order'') (Some (order1\<lparr>orderID := None\<rparr>)) None) initial)
       = [order1\<lparr>orderID := None\<rparr>]
   \<and> orders (onmessage ''t'' (Parsed (Some ''new_order'') (Some (order1\<lparr>orderID := None\<rparr>)) None) initial)
       \<noteq> orders initial"
  by (simp add: orders_onmessage_new_order handleNewOrder_def initial_def)

section \<open>Reconciliation\<close>

text \<open>
  C6. When the request of \<^verbatim>\<open>fetchOrders\<close> fails (it rejects, its body cannot
  be read, or the body's \<^verbatim>\<open>response\<close> code is not 200), the orders after the
  call are the orders before it: the call only adds its request and one
  \<^verbatim>\<open>console.error\<close> line, and returns.
\<close>

theorem fetchOrders_failure_keeps_store:
  "fetch_failed res \<Longrightarrow>
     orders (fetchOrders_resume now res (fetchOrders_request s)) = orders s
   \<and> fetchOrders_resume now res t = t\<lparr>console := console t @ [ConsoleError ''Error fetching orders:'']\<rparr>
   \<and> (k < length (requests t) \<longrightarrow> \<not> snd (requests t ! k) \<longrightarrow>
        orders (step now (AxiosSettled k res) t) = orders t)"
proof -
  assume failed: "fetch_failed res"
  have resume: "fetchOrders_resume now res u = u\<lparr>console := console u @ [ConsoleError ''Error fetching orders:'']\<rparr>" for u
  proof (cases res)
    case Rejected
    then show ?thesis by (simp add: fetchOrders_resume_def console_error_def)
  next
    case (Resolved body)
    with failed show ?thesis
      by (cases body) (simp_all add: fetchOrders_resume_def console_error_def)
  qed
  have "orders (fetchOrders_resume now res (fetchOrders_request s)) = orders s"
    by (simp add: resume fetchOrders_request_def)
  moreover have "k < length (requests t) \<longrightarrow> \<not> snd (requests t ! k) \<longrightarrow>
        orders (step now (AxiosSettled k res) t) = orders t"
    by (simp add: resume)
  ultimately show ?thesis using resume by blast
qed

theorem fetchOrders_failure_keeps_store_witness:
  "fetch_failed (Resolved (Some \<lparr>response = 500, data = None, message = Some ''boom''\<rparr>))
   \<and> orders (fetchOrders_resume ''t'' (Resolved (Some \<lparr>response = 500, data = None, message = Some ''boom''\<rparr>))
        (fetchOrders_request (initial\<lparr>branchId := ''B1'', orders := [order1]\<rparr>))) = [order1]
   \<and> console (fetchOrders_resume ''t'' (Resolved (Some \<lparr>response = 500, data = None, message = Some ''boom''\<rparr>))
        (fetchOrders_request (initial\<lparr>branchId := ''B1'', orders := [order1]\<rparr>)))
       = [ConsoleError ''Error fetching orders:'']
   \<and> 0 < length (requests (fetchOrders_request (initial\<lparr>branchId := ''B1'', orders := [order1]\<rparr>)))
   \<and> \<not> snd (requests (fetchOrders_request (initial\<lparr>branchId := ''B1'', orders := [order1]\<rparr>)) ! 0)
   \<and> orders (step ''t'' (AxiosSettled 0 (Resolved (Some \<lparr>response = 500, data = None, message = Some ''boom''\<rparr>)))
        (fetchOrders_request (initial\<lparr>branchId := ''B1'', orders := [order1]\<rparr>))) = [order1]"
proof -
  have h: "fetch_failed (Resolved (Some \<lparr>response = 500, data = None, message = Some ''boom''\<rparr>))"
    by simp
  show ?thesis
    using h fetchOrders_failure_keeps_store [OF h, of "''t''" "initial\<lparr>branchId := ''B1'', orders := [order1]\<rparr>"
        "fetchOrders_request (initial\<lparr>branchId := ''B1'', orders := [order1]\<rparr>)" 0]
    by (simp add: initial_def fetchOrders_request_def)
qed

section \<open>Connecting\<close>

text \<open>
  C7. With an empty \<^verbatim>\<open>branchId\<close>, \<^verbatim>\<open>connectWebSocket\<close> shows the alert and
  returns: no socket is created or closed, and \<^verbatim>\<open>socketRef\<close>,
  \<^verbatim>\<open>isConnected\<close> and the orders are as before.
\<close>

theorem connect_rejects_empty_branchId:
  "branchId s = [] \<Longrightarrow>
     connectWebSocket now ctor_ok s = s\<lparr>alerts := alerts s @ [''Please enter a Branch ID'']\<rparr>
   \<and> sockets (connectWebSocket now ctor_ok s) = sockets s
   \<and> socketRef (connectWebSocket now ctor_ok s) = socketRef s
   \<and> isConnected (connectWebSocket now ctor_ok s) = isConnected s
   \<and> orders (connectWebSocket now ctor_ok s) = orders s"
  by (simp add: connectWebSocket_def)

theorem connect_rejects_empty_branchId_witness:
  "branchId initial = []
   \<and> connectWebSocket ''t'' True initial = initial\<lparr>alerts := [''Please enter a Branch ID'']\<rparr>
   \<and> sockets (connectWebSocket ''t'' True initial) = []"
proof -
  have h: "branchId initial = []" by (simp add: initial_def)
  show ?thesis
    using h connect_rejects_empty_branchId [OF h, of "''t''" True]
    by (simp add: initial_def)
qed

section \<open>One live socket\<close>

lemma socket_inv_iff:
  "socket_inv s \<longleftrightarrow>
     (\<forall>i < length (sockets s). live (readyState (sockets s ! i)) \<longrightarrow> socketRef s = Some i)"
  by (auto simp: socket_inv_def list_all_iff)

lemma socket_inv_same:
  "sockets t = sockets s \<Longrightarrow> socketRef t = socketRef s \<Longrightarrow> socket_inv s \<Longrightarrow> socket_inv t"
  by (simp add: socket_inv_iff)

lemma length_ws_close: "length (ws_close i ws) = length ws"
  by (simp add: ws_close_def)

lemma live_ws_close:
  "j < length ws \<Longrightarrow>
   live (readyState (ws_close i ws ! j)) \<longleftrightarrow> j \<noteq> i \<and> live (readyState (ws ! j))"
  by (cases "readyState (ws ! j)") (auto simp: ws_close_def nth_list_update)

lemma socket_inv_initial: "socket_inv initial"
  by (simp add: socket_inv_iff initial_def)

lemma socket_inv_connectWebSocket:
  assumes "socket_inv s"
  shows "socket_inv (connectWebSocket now ctor_ok s)"
proof (cases "branchId s = []")
  case True
  then show ?thesis
    using assms by (simp add: connectWebSocket_def socket_inv_iff)
next
  case False
  show ?thesis
  proof (cases "socketRef s")
    case None
    with assms have dead: "\<forall>i < length (sockets s). \<not> live (readyState (sockets s ! i))"
      by (simp add: socket_inv_iff)
    with False None show ?thesis
      by (cases ctor_ok)
        (auto simp: connectWebSocket_def addConnectionMessage_def socket_inv_iff nth_append)
  next
    case (Some i)
    with assms have only: "\<forall>j < length (sockets s). live (readyState (sockets s ! j)) \<longrightarrow> j = i"
      by (simp add: socket_inv_iff)
    then have dead: "\<forall>j < length (sockets s). \<not> live (readyState (ws_close i (sockets s) ! j))"
      by (auto simp: live_ws_close)
    with False Some show ?thesis
      by (cases ctor_ok)
        (auto simp: connectWebSocket_def addConnectionMessage_def socket_inv_iff nth_append
          length_ws_close)
  qed
qed

lemma socket_inv_disconnect: "socket_inv s \<Longrightarrow> socket_inv (disconnect now s)"
  by (cases "socketRef s")
    (auto simp: disconnect_def addConnectionMessage_def socket_inv_iff length_ws_close live_ws_close)

lemma socket_inv_open:
  "socket_inv s \<Longrightarrow> has_state i CONNECTING s \<Longrightarrow> socket_inv (set_readyState i OPEN s)"
  by (auto simp: socket_inv_iff has_state_def set_readyState_def nth_list_update)

lemma socket_inv_closed: "socket_inv s \<Longrightarrow> socket_inv (set_readyState i CLOSED s)"
  by (cases "i < length (sockets s)")
    (auto simp: socket_inv_iff set_readyState_def nth_list_update split: if_splits)

lemma socket_inv_onopen: "socket_inv s \<Longrightarrow> socket_inv (onopen now s)"
  by (rule socket_inv_same [of _ s]) (simp_all add: onopen_def addConnectionMessage_def)

lemma socket_inv_onclose: "socket_inv s \<Longrightarrow> socket_inv (onclose now s)"
  by (rule socket_inv_same [of _ s]) (simp_all add: onclose_def addConnectionMessage_def)

lemma socket_inv_onerror: "socket_inv s \<Longrightarrow> socket_inv (onerror now e s)"
  by (rule socket_inv_same [of _ s]) (simp_all add: onerror_def addConnectionMessage_def)

lemma socket_inv_unmount: "socket_inv s \<Longrightarrow> socket_inv (unmount s)"
  by (cases "socketRef s")
    (auto simp: unmount_def socket_inv_iff length_ws_close live_ws_close)

lemma socket_inv_console_log: "socket_inv s \<Longrightarrow> socket_inv (console_log text s)"
  by (rule socket_inv_same [of _ s]) (simp_all add: console_log_def)

lemma sockets_console_log:
  "sockets (console_log text s) = sockets s" "socketRef (console_log text s) = socketRef s"
  by (simp_all add: console_log_def)

lemma sockets_console_error:
  "sockets (console_error text s) = sockets s" "socketRef (console_error text s) = socketRef s"
  by (simp_all add: console_error_def)

lemma sockets_addConnectionMessage:
  "sockets (addConnectionMessage now m s) = sockets s"
  "socketRef (addConnectionMessage now m s) = socketRef s"
  by (simp_all add: addConnectionMessage_def)

lemmas sockets_same = sockets_console_log sockets_console_error sockets_addConnectionMessage

lemma sockets_onmessage:
  assumes "\<not> render_throws f s"
  shows "sockets (onmessage now f s) = sockets s \<and> socketRef (onmessage now f s) = socketRef s"
proof (cases f)
  case Unparseable
  then show ?thesis by (simp add: onmessage_def sockets_same)
next
  case ParsedNull
  then show ?thesis by (simp add: onmessage_def sockets_same)
next
  case (Parsed ty payload cid)
  show ?thesis
  proof (cases payload)
    case None
    with assms Parsed have ty: "ty \<noteq> Some ''new_order''"
      and empty: "ty = Some ''status_changed'' \<longrightarrow> orders s = []"
      by (simp_all add: render_throws_def)
    show ?thesis
      unfolding Parsed None using ty empty
      by (simp add: onmessage_def Let_def sockets_same orders_simps)
  next
    case (Some order)
    show ?thesis
      unfolding Parsed Some
      by (simp add: onmessage_def Let_def sockets_same)
  qed
qed

lemma onmessage_render_throws:
  assumes "render_throws f s"
  shows "onmessage now f s = unmount (console_log ''Received message:'' s)
   \<or> onmessage now f s
       = unmount (console_log ''Status changed:'' (console_log ''Received message:'' s))"
proof (cases f)
  case Unparseable
  with assms show ?thesis by (simp add: render_throws_def)
next
  case ParsedNull
  with assms show ?thesis by (simp add: render_throws_def)
next
  case (Parsed ty payload cid)
  with assms have payload: "payload = None"
    and ty: "ty = Some ''new_order'' \<or> (ty = Some ''status_changed'' \<and> orders s \<noteq> [])"
    by (simp_all add: render_throws_def split: option.splits)
  from ty show ?thesis
  proof
    assume "ty = Some ''new_order''"
    then show ?thesis
      unfolding Parsed payload by (simp add: onmessage_def Let_def)
  next
    assume "ty = Some ''status_changed'' \<and> orders s \<noteq> []"
    then show ?thesis
      unfolding Parsed payload by (simp add: onmessage_def Let_def orders_simps)
  qed
qed

lemma socket_inv_onmessage: "socket_inv s \<Longrightarrow> socket_inv (onmessage now f s)"
proof (cases "render_throws f s")
  case True
  assume inv: "socket_inv s"
  then have logged: "socket_inv (console_log ''Received message:'' s)"
    by (rule socket_inv_console_log)
  then have first: "socket_inv (unmount (console_log ''Received message:'' s))"
    by (rule socket_inv_unmount)
  from logged have "socket_inv (console_log ''Status changed:'' (console_log ''Received message:'' s))"
    by (rule socket_inv_console_log)
  then have second:
    "socket_inv (unmount (console_log ''Status changed:'' (console_log ''Received message:'' s)))"
    by (rule socket_inv_unmount)
  from onmessage_render_throws [OF True, of now] show ?thesis
  proof
    assume "onmessage now f s = unmount (console_log ''Received message:'' s)"
    with first show ?thesis by simp
  next
    assume "onmessage now f s
       = unmount (console_log ''Status changed:'' (console_log ''Received message:'' s))"
    with second show ?thesis by simp
  qed
next
  case False
  assume inv: "socket_inv s"
  from sockets_onmessage [OF False, of now]
  have same: "sockets (onmessage now f s) = sockets s" "socketRef (onmessage now f s) = socketRef s"
    by simp_all
  from same inv show ?thesis
    by (rule socket_inv_same)
qed

lemma sockets_fetchOrders_resume:
  "sockets (fetchOrders_resume now res s) = sockets s"
  "socketRef (fetchOrders_resume now res s) = socketRef s"
  by (simp_all add: fetchOrders_resume_def console_error_def addConnectionMessage_def
      split: axios_result.splits option.splits)

lemma sockets_setBranchId:
  "sockets (setBranchId b s) = sockets s" "socketRef (setBranchId b s) = socketRef s"
  by (simp_all add: setBranchId_def fetchOrders_request_def Let_def)

lemma socket_inv_step: "socket_inv s \<Longrightarrow> socket_inv (step now e s)"
proof (cases e)
  case (ChangeBranchId b)
  assume "socket_inv s"
  then show ?thesis
    unfolding ChangeBranchId step.simps
    by (rule socket_inv_same [rotated 2]) (simp_all add: sockets_setBranchId)
next
  case (ClickConnect ok)
  assume "socket_inv s"
  then show ?thesis
    unfolding ClickConnect by (simp add: socket_inv_connectWebSocket)
next
  case ClickDisconnect
  assume "socket_inv s"
  then show ?thesis
    unfolding ClickDisconnect by (simp add: socket_inv_disconnect)
next
  case ClickRefresh
  assume "socket_inv s"
  then show ?thesis
    unfolding ClickRefresh step.simps
    by (rule socket_inv_same [rotated 2]) (simp_all add: fetchOrders_request_def)
next
  case (WsOpen i)
  assume "socket_inv s"
  then show ?thesis
    unfolding WsOpen by (simp add: socket_inv_onopen socket_inv_open)
next
  case (WsMessage i f)
  assume inv: "socket_inv s"
  have "socket_inv (onmessage now f s)"
    using inv by (rule socket_inv_onmessage)
  with inv show ?thesis
    unfolding WsMessage by simp
next
  case (WsClose i)
  assume "socket_inv s"
  then show ?thesis
    unfolding WsClose by (simp add: socket_inv_onclose socket_inv_closed)
next
  case (WsError i t)
  assume "socket_inv s"
  then show ?thesis
    unfolding WsError by (simp add: socket_inv_onclose socket_inv_onerror socket_inv_closed)
next
  case (AxiosSettled k res)
  assume inv: "socket_inv s"
  have "socket_inv (fetchOrders_resume now res (s\<lparr>requests := (requests s)[k := (fst (requests s ! k), True)]\<rparr>))"
    using inv by (rule socket_inv_same [rotated 2]) (simp_all add: sockets_fetchOrders_resume)
  with inv show ?thesis
    unfolding AxiosSettled by simp
qed

lemma socket_inv_run: "socket_inv s \<Longrightarrow> socket_inv (run es s)"
proof (induction es arbitrary: s)
  case Nil
  then show ?case by simp
next
  case (Cons ne es)
  obtain now e where ne: "ne = (now, e)" by (cases ne)
  from Cons.prems have now: "socket_inv (step now e s)"
    by (rule socket_inv_step)
  then have "socket_inv (run es (step now e s))"
    by (rule Cons.IH)
  with now show ?case
    unfolding ne by simp
qed

lemma socket_inv_connects: "socket_inv s \<Longrightarrow> socket_inv (connects cs s)"
proof (induction cs arbitrary: s)
  case Nil
  then show ?case by simp
next
  case (Cons c cs)
  obtain now ok where c: "c = (now, ok)" by (cases c)
  from Cons.prems have "socket_inv (connectWebSocket now ok s)"
    by (rule socket_inv_connectWebSocket)
  then have "socket_inv (connects cs (connectWebSocket now ok s))"
    by (rule Cons.IH)
  then show ?case
    unfolding c by simp
qed

lemma live_sockets_le_1:
  assumes "socket_inv s"
  shows "length (live_sockets s) \<le> 1"
proof -
  have "set (live_sockets s) \<subseteq> set_option (socketRef s)"
    using assms by (auto simp: live_sockets_def socket_inv_iff)
  then have "card (set (live_sockets s)) \<le> card (set_option (socketRef s))"
    by (intro card_mono) simp_all
  also have "\<dots> \<le> 1"
    by (cases "socketRef s") simp_all
  finally have "card (set (live_sockets s)) \<le> 1" .
  moreover have "distinct (live_sockets s)"
    by (simp add: live_sockets_def)
  ultimately show ?thesis
    by (simp add: distinct_card)
qed

text \<open>
  C10. After any sequence of events, followed by any sequence of calls of
  \<^verbatim>\<open>connectWebSocket\<close>, at most one socket is connecting or open, and it is
  the one \<^verbatim>\<open>socketRef.current\<close> refers to. A call with a non-empty
  \<^verbatim>\<open>branchId\<close> leaves the socket it found in \<^verbatim>\<open>socketRef.current\<close> closing
  or closed.
\<close>

theorem at_most_one_live_socket:
  "length (live_sockets (connects cs (run es initial))) \<le> 1
   \<and> set (live_sockets (connects cs (run es initial)))
        \<subseteq> set_option (socketRef (connects cs (run es initial)))
   \<and> (branchId s \<noteq> [] \<longrightarrow> socketRef s = Some i \<longrightarrow> i < length (sockets s) \<longrightarrow>
        \<not> live (readyState (sockets (connectWebSocket now ctor_ok s) ! i)))"
proof -
  have inv: "socket_inv (connects cs (run es initial))"
    by (intro socket_inv_connects socket_inv_run socket_inv_initial)
  then have one: "length (live_sockets (connects cs (run es initial))) \<le> 1"
    by (rule live_sockets_le_1)
  have ref: "set (live_sockets (connects cs (run es initial)))
        \<subseteq> set_option (socketRef (connects cs (run es initial)))"
    using inv by (auto simp: live_sockets_def socket_inv_iff)
  have closes: "\<not> live (readyState (sockets (connectWebSocket now ctor_ok s) ! i))"
    if "branchId s \<noteq> []" "socketRef s = Some i" "i < length (sockets s)"
    using that
    by (cases ctor_ok)
      (simp_all add: connectWebSocket_def addConnectionMessage_def nth_append length_ws_close
        live_ws_close)
  from one ref closes show ?thesis by blast
qed

theorem at_most_one_live_socket_witness:
  "live_sockets (connects [(''t3'', True), (''t4'', True)]
      (run [(''t0'', ChangeBranchId ''B1''), (''t1'', ClickConnect True), (''t2'', WsOpen 0)] initial)) = [2]
   \<and> socketRef (connects [(''t3'', True), (''t4'', True)]
      (run [(''t0'', ChangeBranchId ''B1''), (''t1'', ClickConnect True), (''t2'', WsOpen 0)] initial)) = Some 2
   \<and> branchId (run [(''t0'', ChangeBranchId ''B1''), (''t1'', ClickConnect True), (''t2'', WsOpen 0)] initial) \<noteq> []
   \<and> socketRef (run [(''t0'', ChangeBranchId ''B1''), (''t1'', ClickConnect True), (''t2'', WsOpen 0)] initial) = Some 0
   \<and> readyState (sockets (run [(''t0'', ChangeBranchId ''B1''), (''t1'', ClickConnect True), (''t2'', WsOpen 0)] initial) ! 0) = OPEN
   \<and> readyState (sockets (connectWebSocket ''t3'' True
        (run [(''t0'', ChangeBranchId ''B1''), (''t1'', ClickConnect True), (''t2'', WsOpen 0)] initial)) ! 0) = CLOSING"
  using at_most_one_live_socket [of "[(''t3'', True), (''t4'', True)]"
      "[(''t0'', ChangeBranchId ''B1''), (''t1'', ClickConnect True), (''t2'', WsOpen 0)]"
      "run [(''t0'', ChangeBranchId ''B1''), (''t1'', ClickConnect True), (''t2'', WsOpen 0)] initial" 0 "''t3''" True]
  by (simp add: live_sockets_def initial_def setBranchId_def fetchOrders_request_def
      connectWebSocket_def addConnectionMessage_def has_state_def set_readyState_def onopen_def
      ws_close_def upt_rec)

section \<open>When a reconciliation is requested, and what its result does\<close>

lemma requests_addConnectionMessage: "requests (addConnectionMessage now m s) = requests s"
  by (simp add: addConnectionMessage_def)

lemma requests_connectWebSocket: "requests (connectWebSocket now ctor_ok s) = requests s"
  by (cases "socketRef s"; cases ctor_ok)
    (simp_all add: connectWebSocket_def Let_def addConnectionMessage_def)

text \<open>
  C8 (as the code has it). The \<^verbatim>\<open>open\<close> event of a socket requests no
  fetch, and neither does the Connect button: \<^verbatim>\<open>onopen\<close> sets
  \<^verbatim>\<open>isConnected\<close> and adds a log line. A fetch for a branch is requested
  when \<^verbatim>\<open>branchId\<close> changes to a non-empty value (the effect on
  \<^verbatim>\<open>[branchId]\<close>), and by the Refresh button for the current
  \<^verbatim>\<open>branchId\<close>.
\<close>

theorem fetch_requested_on_branch_change:
  "requests (onopen now s) = requests s
   \<and> requests (step now (WsOpen i) s) = requests s
   \<and> requests (step now (ClickConnect ctor_ok) s) = requests s
   \<and> (b \<noteq> branchId s \<longrightarrow> b \<noteq> [] \<longrightarrow>
        requests (step now (ChangeBranchId b) s) = requests s @ [(fetch_url b, False)])
   \<and> requests (step now ClickRefresh s) = requests s @ [(fetch_url (branchId s), False)]"
proof -
  have op: "requests (onopen now t) = requests t" for t
    by (simp add: onopen_def requests_addConnectionMessage)
  have "requests (step now (WsOpen i) s) = requests s"
    by (simp add: op set_readyState_def)
  moreover have "requests (step now (ClickConnect ctor_ok) s) = requests s"
    by (simp add: requests_connectWebSocket)
  moreover have "b \<noteq> branchId s \<longrightarrow> b \<noteq> [] \<longrightarrow>
        requests (step now (ChangeBranchId b) s) = requests s @ [(fetch_url b, False)]"
    by (simp add: setBranchId_def fetchOrders_request_def)
  moreover have "requests (step now ClickRefresh s) = requests s @ [(fetch_url (branchId s), False)]"
    by (simp add: fetchOrders_request_def)
  ultimately show ?thesis using op by blast
qed

theorem fetch_requested_on_branch_change_witness:
  "''B1'' \<noteq> branchId initial
   \<and> requests (step ''t0'' (ChangeBranchId ''B1'') initial) = [(fetch_url ''B1'', False)]
   \<and> requests (step ''t1'' (ClickConnect True) (step ''t0'' (ChangeBranchId ''B1'') initial))
       = [(fetch_url ''B1'', False)]
   \<and> requests (step ''t2'' (WsOpen 0) (run [(''t0'', ChangeBranchId ''B1''), (''t1'', ClickConnect True)] initial))
       = [(fetch_url ''B1'', False)]
   \<and> isConnected (step ''t2'' (WsOpen 0) (run [(''t0'', ChangeBranchId ''B1''), (''t1'', ClickConnect True)] initial))"
  using fetch_requested_on_branch_change [of "''t0''" initial 0 True "''B1''"]
    fetch_requested_on_branch_change [of "''t2''"
      "run [(''t0'', ChangeBranchId ''B1''), (''t1'', ClickConnect True)] initial" 0 True "''B1''"]
  by (simp add: initial_def setBranchId_def fetchOrders_request_def connectWebSocket_def
      addConnectionMessage_def has_state_def set_readyState_def onopen_def)

text \<open>
  C8 as stated fails: after connecting to branch B1, disconnecting and
  connecting again, the connection is open a second time, and the only
  request ever issued is the one made when the branch id was entered, before
  the first connection.
\<close>

theorem reconnect_without_fetch_counterexample:
  "requests (run [(''t0'', ChangeBranchId ''B1''), (''t1'', ClickConnect True), (''t2'', WsOpen 0),
                  (''t3'', ClickDisconnect), (''t4'', WsClose 0)] initial)
     = [(fetch_url ''B1'', False)]
   \<and> \<not> isConnected (run [(''t0'', ChangeBranchId ''B1''), (''t1'', ClickConnect True), (''t2'', WsOpen 0),
                  (''t3'', ClickDisconnect), (''t4'', WsClose 0), (''t5'', ClickConnect True)] initial)
   \<and> isConnected (run [(''t0'', ChangeBranchId ''B1''), (''t1'', ClickConnect True), (''t2'', WsOpen 0),
                  (''t3'', ClickDisconnect), (''t4'', WsClose 0), (''t5'', ClickConnect True),
                  (''t6'', WsOpen 1)] initial)
   \<and> requests (run [(''t0'', ChangeBranchId ''B1''), (''t1'', ClickConnect True), (''t2'', WsOpen 0),
                  (''t3'', ClickDisconnect), (''t4'', WsClose 0), (''t5'', ClickConnect True),
                  (''t6'', WsOpen 1)] initial)
     = [(fetch_url ''B1'', False)]"
  by (simp add: initial_def setBranchId_def fetchOrders_request_def connectWebSocket_def
      addConnectionMessage_def has_state_def set_readyState_def onopen_def onclose_def
      disconnect_def ws_close_def)

text \<open>
  C9 (as the code has it). \<^verbatim>\<open>fetchOrders\<close> carries no epoch and checks
  nothing when it resumes: whenever a request resolves with code 200 and a
  list of orders, that list becomes the store, whatever the current
  \<^verbatim>\<open>branchId\<close>, socket or connection state.
\<close>

theorem fetched_orders_replace_store:
  "response body = 200 \<Longrightarrow> data body = Some ds \<Longrightarrow>
     orders (fetchOrders_resume now (Resolved (Some body)) s) = ds
   \<and> (k < length (requests s) \<longrightarrow> \<not> snd (requests s ! k) \<longrightarrow>
        orders (step now (AxiosSettled k (Resolved (Some body))) s) = ds)"
  by (simp add: fetchOrders_resume_def addConnectionMessage_def)

theorem fetched_orders_replace_store_witness:
  "response \<lparr>response = 200, data = Some [order1], message = None\<rparr> = 200
   \<and> data \<lparr>response = 200, data = Some [order1], message = None\<rparr> = Some [order1]
   \<and> 0 < length (requests (fetchOrders_request (initial\<lparr>branchId := ''B'', orders := [order2]\<rparr>)))
   \<and> \<not> snd (requests (fetchOrders_request (initial\<lparr>branchId := ''B'', orders := [order2]\<rparr>)) ! 0)
   \<and> orders (fetchOrders_resume ''t'' (Resolved (Some \<lparr>response = 200, data = Some [order1], message = None\<rparr>))
        (fetchOrders_request (initial\<lparr>branchId := ''B'', orders := [order2]\<rparr>))) = [order1]
   \<and> orders (step ''t'' (AxiosSettled 0 (Resolved (Some \<lparr>response = 200, data = Some [order1], message = None\<rparr>)))
        (fetchOrders_request (initial\<lparr>branchId := ''B'', orders := [order2]\<rparr>))) = [order1]"
proof -
  have h1: "response \<lparr>response = 200, data = Some [order1], message = None\<rparr> = 200" by simp
  have h2: "data \<lparr>response = 200, data = Some [order1], message = None\<rparr> = Some [order1]" by simp
  show ?thesis
    using h1 h2 fetched_orders_replace_store [OF h1 h2, of "''t''"
        "fetchOrders_request (initial\<lparr>branchId := ''B'', orders := [order2]\<rparr>)" 0]
    by (simp add: initial_def fetchOrders_request_def)
qed

text \<open>
  C9 as stated fails: the fetch requested for branch A resolves after the
  component has reconnected for branch B and after B's own fetch; its result,
  an order of branch A, replaces the store.
\<close>

theorem stale_fetch_applied_counterexample:
  "branchID order1 = ''A''
   \<and> branchId (run [(''t0'', ChangeBranchId ''A''), (''t1'', ClickConnect True), (''t2'', WsOpen 0),
        (''t3'', ChangeBranchId ''B''), (''t4'', ClickDisconnect), (''t5'', WsClose 0),
        (''t6'', ClickConnect True), (''t7'', WsOpen 1),
        (''t8'', AxiosSettled 1 (Resolved (Some \<lparr>response = 200, data = Some [], message = None\<rparr>))),
        (''t9'', AxiosSettled 0 (Resolved (Some \<lparr>response = 200, data = Some [order1], message = None\<rparr>)))]
        initial) = ''B''
   \<and> orders (run [(''t0'', ChangeBranchId ''A''), (''t1'', ClickConnect True), (''t2'', WsOpen 0),
        (''t3'', ChangeBranchId ''B''), (''t4'', ClickDisconnect), (''t5'', WsClose 0),
        (''t6'', ClickConnect True), (''t7'', WsOpen 1),
        (''t8'', AxiosSettled 1 (Resolved (Some \<lparr>response = 200, data = Some [], message = None\<rparr>)))]
        initial) = []
   \<and> orders (run [(''t0'', ChangeBranchId ''A''), (''t1'', ClickConnect True), (''t2'', WsOpen 0),
        (''t3'', ChangeBranchId ''B''), (''t4'', ClickDisconnect), (''t5'', WsClose 0),
        (''t6'', ClickConnect True), (''t7'', WsOpen 1),
        (''t8'', AxiosSettled 1 (Resolved (Some \<lparr>response = 200, data = Some [], message = None\<rparr>))),
        (''t9'', AxiosSettled 0 (Resolved (Some \<lparr>response = 200, data = Some [order1], message = None\<rparr>)))]
        initial) = [order1]"
  by (simp add: initial_def setBranchId_def fetchOrders_request_def connectWebSocket_def
      addConnectionMessage_def has_state_def set_readyState_def onopen_def onclose_def
      disconnect_def ws_close_def fetchOrders_resume_def order1_def)

end
